theory Spec2Isabelle
  imports Main "HOL-Library.Sublist"
begin

section \<open>Strings\<close>

text \<open>
  Python strings are modelled as \<open>string\<close>, a character being a code point below
  256. The character classes and the case mapping below are those of Python's
  \<open>str\<close> methods and of its regular expressions on these code points.
\<close>

text \<open>
  The upper-case letters that \<open>str.lower()\<close> changes, and their images in the same
  order: the letters of ASCII, then those from code point 192 on.
\<close>

definition upper_letters :: string where
  "upper_letters = ''ABCDEFGHIJKLMNOPQRSTUVWXYZ'' @
     [CHR 0xC0, CHR 0xC1, CHR 0xC2, CHR 0xC3, CHR 0xC4, CHR 0xC5,
      CHR 0xC6, CHR 0xC7, CHR 0xC8, CHR 0xC9, CHR 0xCA, CHR 0xCB,
      CHR 0xCC, CHR 0xCD, CHR 0xCE, CHR 0xCF, CHR 0xD0, CHR 0xD1,
      CHR 0xD2, CHR 0xD3, CHR 0xD4, CHR 0xD5, CHR 0xD6, CHR 0xD8,
      CHR 0xD9, CHR 0xDA, CHR 0xDB, CHR 0xDC, CHR 0xDD, CHR 0xDE]"

definition lower_letters :: string where
  "lower_letters = ''abcdefghijklmnopqrstuvwxyz'' @
     [CHR 0xE0, CHR 0xE1, CHR 0xE2, CHR 0xE3, CHR 0xE4, CHR 0xE5,
      CHR 0xE6, CHR 0xE7, CHR 0xE8, CHR 0xE9, CHR 0xEA, CHR 0xEB,
      CHR 0xEC, CHR 0xED, CHR 0xEE, CHR 0xEF, CHR 0xF0, CHR 0xF1,
      CHR 0xF2, CHR 0xF3, CHR 0xF4, CHR 0xF5, CHR 0xF6, CHR 0xF8,
      CHR 0xF9, CHR 0xFA, CHR 0xFB, CHR 0xFC, CHR 0xFD, CHR 0xFE]"

text \<open>The other letters below 256, which \<open>str.lower()\<close> leaves as they are.\<close>

definition unpaired_letters :: string where
  "unpaired_letters = [CHR 0xAA, CHR 0xB5, CHR 0xBA, CHR 0xDF, CHR 0xFF]"

definition digits :: string where
  "digits = ''0123456789''"

text \<open>Superscript digits and fractions: numeric, hence word characters, but no letters.\<close>

definition other_numerals :: string where
  "other_numerals = [CHR 0xB2, CHR 0xB3, CHR 0xB9, CHR 0xBC, CHR 0xBD, CHR 0xBE]"

text \<open>The characters for which \<open>str.isspace()\<close> holds.\<close>

definition whitespace :: string where
  "whitespace = [CHR 0x09, CHR 0x0A, CHR 0x0B, CHR 0x0C, CHR 0x0D, CHR 0x1C, CHR 0x1D,
                 CHR 0x1E, CHR 0x1F, CHR 0x20, CHR 0x85, CHR 0xA0]"

text \<open>\<open>str.lower()\<close>, one character at a time.\<close>

definition lower_char :: "char \<Rightarrow> char" where
  "lower_char c = (case map_of (zip upper_letters lower_letters) c of Some d \<Rightarrow> d | None \<Rightarrow> c)"

definition lower :: "string \<Rightarrow> string" where
  "lower s = map lower_char s"

text \<open>The operator \<open>k in t\<close> on two strings: \<open>k\<close> occurs in \<open>t\<close> as a substring.\<close>

fun str_in :: "string \<Rightarrow> string \<Rightarrow> bool" where
  "str_in k [] = (k = [])"
| "str_in k (c # cs) = (prefix k (c # cs) \<or> str_in k cs)"

section \<open>Relevance scorer\<close>

text \<open>
  \<open>calculate_relevance\<close>: the text is lower-cased, the score starts at 0 and the loop
  over the keywords adds 1 for each keyword found in the lower-cased text.
\<close>

fun score_loop :: "string \<Rightarrow> string list \<Rightarrow> int \<Rightarrow> int" where
  "score_loop text_lower [] score = score"
| "score_loop text_lower (keyword # keywords) score =
     score_loop text_lower keywords (if str_in keyword text_lower then score + 1 else score)"

definition calculate_relevance :: "string \<Rightarrow> string list \<Rightarrow> int" where
  "calculate_relevance text keywords = score_loop (lower text) keywords 0"

text \<open>
  The scorer as the specification words it: the number of keywords, with multiplicity,
  that occur in the text when case is ignored on both sides.
\<close>

definition case_insensitive_count :: "string \<Rightarrow> string list \<Rightarrow> int" where
  "case_insensitive_count text keywords =
     int (length (filter (\<lambda>k. str_in (lower k) (lower text)) keywords))"

section \<open>Character classes, splitting and joining\<close>

definition is_alpha_char :: "char \<Rightarrow> bool" where
  "is_alpha_char c = (c \<in> set (upper_letters @ lower_letters @ unpaired_letters))"

text \<open>
  The class \<open>\w\<close> of the regular expression engine on strings: letters, digits and
  other numerals, and the underscore.
\<close>

definition is_word_char :: "char \<Rightarrow> bool" where
  "is_word_char c =
     (c \<in> set (upper_letters @ lower_letters @ unpaired_letters @ digits @ other_numerals @ ''_''))"

text \<open>Whitespace as \<open>str.strip()\<close> and \<open>str.split()\<close> see it.\<close>

definition is_space :: "char \<Rightarrow> bool" where
  "is_space c = (c \<in> set whitespace)"

text \<open>\<open>str.isalpha()\<close>: at least one character, and every character a letter.\<close>

definition isalpha :: "string \<Rightarrow> bool" where
  "isalpha w = (w \<noteq> [] \<and> list_all is_alpha_char w)"

text \<open>\<open>str.strip()\<close> with no argument.\<close>

definition strip :: "string \<Rightarrow> string" where
  "strip s = rev (dropWhile is_space (rev (dropWhile is_space s)))"

text \<open>
  The maximal runs of characters satisfying \<open>P\<close>, left to right; \<open>cur\<close> is the run
  being read. With \<open>is_word_char\<close> this is \<open>re.findall(r'\w+', s)\<close>, and with the
  complement of \<open>is_space\<close> it is \<open>s.split()\<close>.
\<close>

fun runs :: "(char \<Rightarrow> bool) \<Rightarrow> string \<Rightarrow> string \<Rightarrow> string list" where
  "runs P [] cur = (if cur = [] then [] else [cur])"
| "runs P (c # cs) cur =
     (if P c then runs P cs (cur @ [c])
      else if cur = [] then runs P cs []
      else cur # runs P cs [])"

definition findall_w :: "string \<Rightarrow> string list" where
  "findall_w s = runs is_word_char s []"

definition split :: "string \<Rightarrow> string list" where
  "split s = runs (\<lambda>c. \<not> is_space c) s []"

text \<open>\<open>' '.join(ws)\<close>.\<close>

fun join_space :: "string list \<Rightarrow> string" where
  "join_space [] = []"
| "join_space [w] = w"
| "join_space (w # v # ws) = w @ '' '' @ join_space (v # ws)"

section \<open>Data model\<close>

text \<open>
  The dictionary returned by \<open>process_nlp\<close>; the field \<open>keyword_list\<close> is its key
  \<open>keywords\<close>.
\<close>

record query_info =
  processed_query :: string
  original_query :: string
  intent :: string
  keyword_list :: "string list"

record article =
  title :: string
  link :: string
  description :: string
  source :: string
  relevance :: int

text \<open>
  What lies outside the program: the tokenizer, the stop-word list and the lemmatizer of
  the language toolkit, and the ten site scrapers, which fetch pages over the network.
  A call that raises is \<open>None\<close>.
\<close>

record env =
  word_tokenize :: "string \<Rightarrow> string list option"
  stop_words :: "string set"
  lemmatize :: "string \<Rightarrow> string option"
  scrape_wikipedia :: "query_info \<Rightarrow> article list option"
  scrape_google :: "query_info \<Rightarrow> article list option"
  scrape_nasa_news :: "query_info \<Rightarrow> article list option"
  scrape_space_com :: "query_info \<Rightarrow> article list option"
  scrape_nasa_science :: "query_info \<Rightarrow> article list option"
  scrape_space_facts :: "query_info \<Rightarrow> article list option"
  scrape_astrogeology :: "query_info \<Rightarrow> article list option"
  scrape_spacex_info :: "query_info \<Rightarrow> article list option"
  scrape_nasa_homepage :: "query_info \<Rightarrow> article list option"
  scrape_universe_today :: "query_info \<Rightarrow> article list option"

section \<open>Query analysis\<close>

text \<open>
  \<open>simple_tokenize\<close>: the toolkit's tokenizer, and when it raises, the runs of word
  characters of the lower-cased text.
\<close>

definition simple_tokenize :: "env \<Rightarrow> string \<Rightarrow> string list" where
  "simple_tokenize e text =
     (case word_tokenize e text of Some tokens \<Rightarrow> tokens | None \<Rightarrow> findall_w (lower text))"

text \<open>The category table of \<open>process_nlp\<close>, in the order the dictionary is written.\<close>

definition space_keywords :: "(string \<times> string list) list" where
  "space_keywords =
    [(''nasa'', [''nasa'', ''space'', ''mission'', ''rocket'', ''astronaut'']),
     (''mars'', [''mars'', ''red'', ''planet'', ''rover'', ''perseverance'', ''curiosity'']),
     (''moon'', [''moon'', ''lunar'', ''apollo'', ''artemis'']),
     (''iss'', [''iss'', ''international'', ''space'', ''station'']),
     (''spacex'', [''spacex'', ''falcon'', ''dragon'', ''elon'', ''musk'']),
     (''satellite'', [''satellite'', ''orbit'', ''gps'']),
     (''solar'', [''solar'', ''sun'', ''system'', ''planet'']),
     (''asteroid'', [''asteroid'', ''meteor'', ''comet'']),
     (''hubble'', [''hubble'', ''telescope'', ''image'', ''webb'', ''james'']),
     (''launch'', [''launch'', ''rocket'', ''mission'']),
     (''galaxy'', [''galaxy'', ''milky'', ''way'', ''star'']),
     (''universe'', [''universe'', ''cosmos'', ''big'', ''bang'', ''black'', ''hole'', ''quasar''])]"

text \<open>
  The loop that determines the intent: it starts from \<open>general\<close> and stops at the first
  category one of whose trigger keywords is an element of the lemmatized list.
\<close>

fun intent_loop :: "(string \<times> string list) list \<Rightarrow> string list \<Rightarrow> string" where
  "intent_loop [] lemmatized = ''general''"
| "intent_loop ((category, kws) # rest) lemmatized =
     (if list_ex (\<lambda>keyword. keyword \<in> set lemmatized) kws then category
      else intent_loop rest lemmatized)"

definition filtered_tokens :: "env \<Rightarrow> string \<Rightarrow> string list" where
  "filtered_tokens e query =
     filter (\<lambda>word. isalpha word \<and> word \<notin> stop_words e) (simple_tokenize e (lower query))"

text \<open>\<open>process_nlp\<close>; it raises (\<open>None\<close>) when the lemmatizer raises on a token.\<close>

definition process_nlp :: "env \<Rightarrow> string \<Rightarrow> query_info option" where
  "process_nlp e query =
     (case those (map (lemmatize e) (filtered_tokens e query)) of
        None \<Rightarrow> None
      | Some lemmatized \<Rightarrow>
          Some \<lparr>processed_query = join_space lemmatized,
                original_query = query,
                intent = intent_loop space_keywords lemmatized,
                keyword_list = lemmatized\<rparr>)"

section \<open>Fallback knowledge base\<close>

text \<open>
  The table \<open>fallback_data\<close> of \<open>get_fallback_results\<close>, in the order it is written:
  topic key, then title, description, link and source of the canned article.
\<close>

definition fallback_data :: "(string \<times> string \<times> string \<times> string \<times> string) list" where
  "fallback_data =
    [(''mars'', ''Mars - The Red Planet'',
      ''Mars is the fourth planet from the Sun and is known as the Red Planet due to iron oxide on its surface. NASA has sent multiple rovers including Perseverance and Curiosity to explore Mars.'',
      ''https://mars.nasa.gov/'', ''Static Knowledge''),
     (''moon'', ''Earth's Moon'',
      ''The Moon is Earth's only natural satellite. NASA's Apollo missions landed humans on the Moon, and the Artemis program aims to return astronauts to the lunar surface.'',
      ''https://moon.nasa.gov/'', ''Static Knowledge''),
     (''black hole'', ''Black Holes'',
      ''Black holes are regions of spacetime where gravity is so strong that nothing can escape. The Event Horizon Telescope captured the first image of a black hole in 2019.'',
      ''https://www.nasa.gov/audience/forstudents/k-4/stories/nasa-knows/what-is-a-black-hole-k4.html'',
      ''Static Knowledge''),
     (''spacex'', ''SpaceX'',
      ''SpaceX is a private aerospace company founded by Elon Musk. They develop reusable rockets and spacecraft, including the Falcon 9 rocket and Dragon capsule.'',
      ''https://www.spacex.com/'', ''Static Knowledge''),
     (''iss'', ''International Space Station'',
      ''The ISS is a space station in low Earth orbit where astronauts conduct scientific research. It has been continuously occupied since 2000.'',
      ''https://www.nasa.gov/mission_pages/station/main/index.html'', ''Static Knowledge''),
     (''hubble'', ''Hubble Space Telescope'',
      ''The Hubble Space Telescope has been observing the universe since 1990, providing stunning images and scientific discoveries about distant galaxies, nebulae, and planets.'',
      ''https://hubblesite.org/'', ''Static Knowledge''),
     (''james webb'', ''James Webb Space Telescope'',
      ''The James Webb Space Telescope is the most powerful space telescope ever built, designed to observe the universe in infrared light and study the formation of the first galaxies.'',
      ''https://webb.nasa.gov/'', ''Static Knowledge'')]"

definition general_article :: article where
  "general_article =
     \<lparr>title = ''Space Exploration'',
      link = ''https://www.nasa.gov/'',
      description = ''Space exploration involves the discovery and exploration of celestial structures in outer space by means of continuously evolving space technology. NASA, ESA, and other space agencies lead missions to study planets, moons, asteroids, and distant galaxies.'',
      source = ''Static Knowledge'',
      relevance = 2\<rparr>"

text \<open>
  The test of the loop in \<open>get_fallback_results\<close>:
  \<open>key in query or intent in key or any(word in key for word in keywords)\<close>,
  where \<open>query\<close> is the lower-cased original query and every \<open>in\<close> is the substring
  test on strings.
\<close>

definition key_matches :: "query_info \<Rightarrow> string \<Rightarrow> bool" where
  "key_matches qi key =
     (str_in key (lower (original_query qi)) \<or> str_in (intent qi) key
      \<or> list_ex (\<lambda>word. str_in word key) (keyword_list qi))"

fun fallback_loop ::
  "query_info \<Rightarrow> (string \<times> string \<times> string \<times> string \<times> string) list \<Rightarrow> article list
     \<Rightarrow> article list" where
  "fallback_loop qi [] results = results"
| "fallback_loop qi ((key, t, d, l, s) # rest) results =
     fallback_loop qi rest
       (if key_matches qi key
        then results @ [\<lparr>title = t, link = l, description = d, source = s, relevance = 3\<rparr>]
        else results)"

definition get_fallback_results :: "query_info \<Rightarrow> article list" where
  "get_fallback_results qi =
     (let results = fallback_loop qi fallback_data []
      in if results = [] then results @ [general_article] else results)"

section \<open>Aggregation\<close>

record scraper =
  name :: string
  func :: "query_info \<Rightarrow> article list option"
  condition :: bool

text \<open>
  The state of one pass of \<open>get_space_info\<close>: the accumulator \<open>all_results\<close>, the
  dictionary \<open>source_results\<close> in insertion order, and the names of the scrapers that
  have been called so far (each call is a round of network requests).
\<close>

record pass_state =
  all_results :: "article list"
  source_results :: "(string \<times> article list) list"
  calls :: "string list"

text \<open>\<open>d[k] = v\<close> on a dictionary kept in insertion order.\<close>

fun dict_set :: "'k \<Rightarrow> 'v \<Rightarrow> ('k \<times> 'v) list \<Rightarrow> ('k \<times> 'v) list" where
  "dict_set k v [] = [(k, v)]"
| "dict_set k v ((k', v') # d) = (if k' = k then (k, v) # d else (k', v') # dict_set k v d)"

text \<open>
  The list \<open>scrapers\<close>. It is built once, before the loop that runs the scrapers, so the
  conditions of the last two entries are computed from the accumulator as it is at that
  moment, which the caller passes as \<open>acc\<close>.
\<close>

definition scrapers :: "env \<Rightarrow> query_info \<Rightarrow> article list \<Rightarrow> scraper list" where
  "scrapers e qi acc =
    [\<lparr>name = ''Wikipedia'', func = scrape_wikipedia e, condition = True\<rparr>,
     \<lparr>name = ''Google'', func = scrape_google e, condition = True\<rparr>,
     \<lparr>name = ''NASA'', func = scrape_nasa_news e, condition = True\<rparr>,
     \<lparr>name = ''Space.com'', func = scrape_space_com e, condition = True\<rparr>,
     \<lparr>name = ''NASA Science'', func = scrape_nasa_science e,
      condition = (intent qi \<in> set [''solar'', ''galaxy'', ''universe'', ''asteroid''])\<rparr>,
     \<lparr>name = ''Space Facts'', func = scrape_space_facts e,
      condition = (intent qi \<in> set [''solar'', ''mars'', ''moon'', ''asteroid''])\<rparr>,
     \<lparr>name = ''USGS Astrogeology'', func = scrape_astrogeology e,
      condition = (intent qi \<in> set [''mars'', ''moon'', ''asteroid''])\<rparr>,
     \<lparr>name = ''SpaceX'', func = scrape_spacex_info e,
      condition = (intent qi \<in> set [''spacex'', ''launch'', ''rocket''])\<rparr>,
     \<lparr>name = ''NASA Homepage'', func = scrape_nasa_homepage e,
      condition = (length acc < 3)\<rparr>,
     \<lparr>name = ''Universe Today'', func = scrape_universe_today e,
      condition = (length acc < 5)\<rparr>]"

text \<open>
  The loop over \<open>scrapers\<close>. A scraper whose condition holds is called; its results are
  stored under its name and appended to the accumulator, and when the call raises the
  exception is swallowed and nothing is stored.
\<close>

fun run_scrapers :: "scraper list \<Rightarrow> query_info \<Rightarrow> pass_state \<Rightarrow> pass_state" where
  "run_scrapers [] qi st = st"
| "run_scrapers (s # ss) qi st =
     (if condition s then
        (case func s qi of
           Some rs \<Rightarrow>
             run_scrapers ss qi
               \<lparr>all_results = all_results st @ rs,
                source_results = dict_set (name s) rs (source_results st),
                calls = calls st @ [name s]\<rparr>
         | None \<Rightarrow> run_scrapers ss qi (st\<lparr>calls := calls st @ [name s]\<rparr>))
      else run_scrapers ss qi st)"

text \<open>The fallback step: only when the accumulator is still empty.\<close>

definition use_fallback :: "query_info \<Rightarrow> pass_state \<Rightarrow> pass_state" where
  "use_fallback qi st =
     (if all_results st = [] then
        (let fallback_results = get_fallback_results qi
         in st\<lparr>all_results := all_results st @ fallback_results,
                source_results :=
                  (if fallback_results \<noteq> []
                   then dict_set ''Static Knowledge'' fallback_results (source_results st)
                   else source_results st)\<rparr>)
      else st)"

text \<open>
  \<open>sorted(all_results, key=relevance, reverse=True)\<close>: a stable sort, so articles of equal
  relevance keep the order in which they were gathered.
\<close>

definition sorted_by_relevance :: "article list \<Rightarrow> article list" where
  "sorted_by_relevance xs = sort_key (\<lambda>x. - relevance x) xs"

text \<open>The loop that removes duplicates, on the pair of \<open>unique_results\<close> and \<open>seen_titles\<close>.\<close>

fun dedup_loop :: "article list \<Rightarrow> article list \<times> string set \<Rightarrow> article list \<times> string set" where
  "dedup_loop [] st = st"
| "dedup_loop (r # rs) (unique_results, seen_titles) =
     (if title r \<notin> seen_titles
      then dedup_loop rs (unique_results @ [r], insert (title r) seen_titles)
      else dedup_loop rs (unique_results, seen_titles))"

record sources_info =
  sources_queried :: "string list"
  sources_with_results :: "string list"
  result_counts :: "(string \<times> int) list"

definition make_sources_info :: "(string \<times> article list) list \<Rightarrow> sources_info" where
  "make_sources_info sr =
     \<lparr>sources_queried = map fst sr,
      sources_with_results = map fst (filter (\<lambda>(s, rs). rs \<noteq> []) sr),
      result_counts = map (\<lambda>(s, rs). (s, int (length rs))) (filter (\<lambda>(s, rs). rs \<noteq> []) sr)\<rparr>"

text \<open>
  The dictionary that \<open>get_space_info\<close> returns. The key \<open>sources_info\<close> is optional:
  \<open>None\<close> is a dictionary without that key.
\<close>

record response =
  query_info :: query_info
  results :: "article list"
  total_found :: int
  sources_info :: "sources_info option"

text \<open>The keys of the returned dictionary, which are the fields of its JSON object.\<close>

definition response_keys :: "response \<Rightarrow> string list" where
  "response_keys r =
     [''query_info'', ''results'', ''total_found'']
     @ (case sources_info r of Some si \<Rightarrow> [''sources_info''] | None \<Rightarrow> [])"

text \<open>The state after the scrapers have run and the fallback step has been taken.\<close>

definition gather :: "env \<Rightarrow> query_info \<Rightarrow> pass_state" where
  "gather e qi =
     (let st = \<lparr>all_results = [], source_results = [], calls = []\<rparr>
      in use_fallback qi (run_scrapers (scrapers e qi (all_results st)) qi st))"

definition unique_results :: "env \<Rightarrow> query_info \<Rightarrow> article list" where
  "unique_results e qi = fst (dedup_loop (sorted_by_relevance (all_results (gather e qi))) ([], {}))"

text \<open>The response built by the handler of the outer \<open>try\<close>.\<close>

definition system_article :: article where
  "system_article =
     \<lparr>title = ''Cosmic Explorer Information'',
      link = ''#'',
      description = ''We're having trouble processing your query. Our team is working on it. In the meantime, try one of our example queries!'',
      source = ''System'',
      relevance = 1\<rparr>"

definition error_response :: "string \<Rightarrow> response" where
  "error_response query =
     \<lparr>query_info = \<lparr>processed_query = query, original_query = query,
                     intent = ''general'', keyword_list = split (lower query)\<rparr>,
      results = [system_article],
      total_found = 1,
      sources_info = None\<rparr>"

text \<open>
  \<open>get_space_info\<close> with its effect: the response and the names of the scrapers called.
  Inside the outer \<open>try\<close> only the query analysis can raise, since the scrapers run under
  a \<open>try\<close> of their own; the handler then returns \<open>error_response\<close>.
\<close>

definition get_space_info_effects :: "env \<Rightarrow> string \<Rightarrow> response \<times> string list" where
  "get_space_info_effects e query =
     (case process_nlp e query of
        None \<Rightarrow> (error_response query, [])
      | Some qi \<Rightarrow>
          (let st = gather e qi; uniq = unique_results e qi
           in (\<lparr>query_info = qi,
                 results = take 10 uniq,
                 total_found = int (length uniq),
                 sources_info = Some (make_sources_info (source_results st))\<rparr>,
               calls st)))"

definition get_space_info :: "env \<Rightarrow> string \<Rightarrow> response" where
  "get_space_info e query = fst (get_space_info_effects e query)"

section \<open>The search route\<close>

datatype reply = Json_error string nat | Json_ok response

text \<open>
  The route \<open>search\<close> of the HTTP layer, with the names of the scrapers called while it
  runs: a query that strips to the empty string is answered 400 before the scraper
  object is touched.
\<close>

definition search :: "env \<Rightarrow> string \<Rightarrow> reply \<times> string list" where
  "search e query =
     (if strip query = [] then (Json_error ''Please provide a query'' 400, [])
      else (let (r, cs) = get_space_info_effects e query in (Json_ok r, cs)))"

section \<open>Sample environments\<close>

text \<open>
  An environment in which the toolkit's tokenizer is unavailable, so that tokens come
  from the regular expression, the lemmatizer leaves every word as it is, and every
  site answers with no article.
\<close>

definition no_articles :: "query_info \<Rightarrow> article list option" where
  "no_articles qi = Some []"

definition offline_env :: env where
  "offline_env =
     \<lparr>word_tokenize = (\<lambda>text. None),
      stop_words = {''the'', ''a'', ''to'', ''of''},
      lemmatize = Some,
      scrape_wikipedia = no_articles,
      scrape_google = no_articles,
      scrape_nasa_news = no_articles,
      scrape_space_com = no_articles,
      scrape_nasa_science = no_articles,
      scrape_space_facts = no_articles,
      scrape_astrogeology = no_articles,
      scrape_spacex_info = no_articles,
      scrape_nasa_homepage = no_articles,
      scrape_universe_today = no_articles\<rparr>"

text \<open>The same environment with a lemmatizer that raises on every word.\<close>

definition broken_lemmatizer_env :: env where
  "broken_lemmatizer_env = offline_env\<lparr>lemmatize := (\<lambda>w. None)\<rparr>"

text \<open>
  An environment in which two sites return an article with the same title and
  different relevance, and the first site alone returns five articles.
\<close>

definition page :: "string \<Rightarrow> string \<Rightarrow> int \<Rightarrow> article" where
  "page t s r = \<lparr>title = t, link = ''https://example.org/'', description = ''A page.'',
                 source = s, relevance = r\<rparr>"

definition wikipedia_pages :: "article list" where
  "wikipedia_pages =
     [page ''James Webb Space Telescope'' ''Wikipedia'' 4,
      page ''Infrared astronomy'' ''Wikipedia'' 9,
      page ''Space telescope'' ''Wikipedia'' 5,
      page ''Hubble Space Telescope'' ''Wikipedia'' 5,
      page ''Lagrange point'' ''Wikipedia'' 1]"

definition google_pages :: "article list" where
  "google_pages = [page ''James Webb Space Telescope'' ''Google'' 7]"

definition two_sites_env :: env where
  "two_sites_env =
     offline_env\<lparr>scrape_wikipedia := (\<lambda>qi. Some wikipedia_pages),
                 scrape_google := (\<lambda>qi. Some google_pages)\<rparr>"

section \<open>The matching rule of the specification, and sample queries\<close>

text \<open>
  The matching rule of the fallback knowledge base as the specification words it: the
  key occurs in the raw query, or equals the intent, or one of the words of the key is
  an element of the keyword list.
\<close>

definition spec_key_matches :: "query_info \<Rightarrow> string \<Rightarrow> bool" where
  "spec_key_matches qi key =
     (str_in key (original_query qi) \<or> key = intent qi
      \<or> list_ex (\<lambda>w. w \<in> set (keyword_list qi)) (split key))"

text \<open>The analyses of the queries \<open>web\<close>, \<open>webb\<close> and \<open>the Mars rover\<close>.\<close>

definition web_query :: query_info where
  "web_query = \<lparr>processed_query = ''web'', original_query = ''web'',
                 intent = ''general'', keyword_list = [''web'']\<rparr>"

definition webb_query :: query_info where
  "webb_query = \<lparr>processed_query = ''webb'', original_query = ''webb'',
                 intent = ''hubble'', keyword_list = [''webb'']\<rparr>"

definition rover_query :: query_info where
  "rover_query = \<lparr>processed_query = ''mars rover'', original_query = ''the Mars rover'',
                   intent = ''mars'', keyword_list = [''mars'', ''rover'']\<rparr>"

section \<open>Facts about strings\<close>

lemma str_in_iff: "str_in k t \<longleftrightarrow> (\<exists>p s. t = p @ k @ s)"
proof -
  have "str_in k t \<longleftrightarrow> sublist k t"
    by (induction t) (auto simp: sublist_Cons_right)
  then show ?thesis by (simp add: sublist_def)
qed

lemma str_in_empty_text: "str_in k [] \<longleftrightarrow> k = []"
  by simp

lemma lower_Nil: "lower [] = []"
  by (simp add: lower_def)

lemma strip_Nil_iff: "strip s = [] \<longleftrightarrow> list_all is_space s"
proof
  assume "strip s = []"
  then have e: "\<forall>x\<in>set (dropWhile is_space s). is_space x"
    by (simp add: strip_def dropWhile_eq_Nil_conv)
  have "dropWhile is_space s = []"
  proof (rule ccontr)
    assume ne: "dropWhile is_space s \<noteq> []"
    then have "\<not> is_space (hd (dropWhile is_space s))" by (rule hd_dropWhile)
    moreover from ne have "hd (dropWhile is_space s) \<in> set (dropWhile is_space s)" by simp
    ultimately show False using e by blast
  qed
  then show "list_all is_space s"
    by (simp add: dropWhile_eq_Nil_conv list_all_iff)
next
  assume "list_all is_space s"
  then have d: "dropWhile is_space s = []"
    by (simp add: dropWhile_eq_Nil_conv list_all_iff)
  show "strip s = []" unfolding strip_def d by simp
qed

section \<open>Facts about the relevance scorer\<close>

lemma score_loop_acc:
  "score_loop t ks n = n + int (length (filter (\<lambda>k. str_in k t) ks))"
  by (induction ks arbitrary: n) auto

lemma calculate_relevance_count:
  "calculate_relevance text ks = int (length (filter (\<lambda>k. str_in k (lower text)) ks))"
  by (simp add: calculate_relevance_def score_loop_acc)

lemma length_filter_card:
  "length (filter P xs) = card {i. i < length xs \<and> P (xs ! i)}"
  by (simp add: length_filter_conv_card)

text \<open>
  C8. Scoring any text against the empty keyword list gives 0. Scoring the empty text
  gives the number of empty keywords in the list (the empty string occurs in every
  text), hence 0 whenever no keyword is the empty string.
\<close>

theorem calculate_relevance_empty:
  "calculate_relevance text [] = 0
   \<and> calculate_relevance [] keywords = int (length (filter (\<lambda>k. k = []) keywords))
   \<and> ([] \<notin> set keywords \<longrightarrow> calculate_relevance [] keywords = 0)"
proof -
  have a: "calculate_relevance text [] = 0"
    by (simp add: calculate_relevance_def)
  have b: "calculate_relevance [] keywords = int (length (filter (\<lambda>k. k = []) keywords))"
    by (simp add: calculate_relevance_count lower_Nil)
  have c: "[] \<notin> set keywords \<longrightarrow> calculate_relevance [] keywords = 0"
  proof
    assume "[] \<notin> set keywords"
    then have "filter (\<lambda>k. k = []) keywords = []"
      by (auto simp: filter_empty_conv)
    with b show "calculate_relevance [] keywords = 0" by simp
  qed
  from a b c show ?thesis by blast
qed

theorem calculate_relevance_empty_witness:
  "[] \<notin> set [''mars'', ''rover''] \<and> calculate_relevance [] [''mars'', ''rover''] = 0"
  using calculate_relevance_empty [of "[]" "[''mars'', ''rover'']"] by simp

theorem calculate_relevance_empty_text_counterexample:
  "calculate_relevance '''' [''''] = 1"
  by (simp add: calculate_relevance_def lower_def)

text \<open>
  C10. The score lies between 0 and the number of keywords, and appending one more
  keyword to the list never lowers it.
\<close>

theorem calculate_relevance_bounds_mono:
  "0 \<le> calculate_relevance text keywords
   \<and> calculate_relevance text keywords \<le> int (length keywords)
   \<and> calculate_relevance text keywords \<le> calculate_relevance text (keywords @ [k])"
  by (simp add: calculate_relevance_count)

text \<open>
  C7. The score is the number of positions of the keyword list whose keyword occurs,
  exactly as it is written, as a substring of the lower-cased text. When every keyword
  is already in lower case, this is the case-insensitive substring count.
\<close>

theorem calculate_relevance_counts:
  "calculate_relevance text keywords
     = int (card {i. i < length keywords \<and> (\<exists>p s. lower text = p @ keywords ! i @ s)})
   \<and> ((\<forall>k\<in>set keywords. lower k = k) \<longrightarrow>
        calculate_relevance text keywords = case_insensitive_count text keywords)"
proof -
  have a: "calculate_relevance text keywords
     = int (card {i. i < length keywords \<and> (\<exists>p s. lower text = p @ keywords ! i @ s)})"
    by (simp add: calculate_relevance_count length_filter_card str_in_iff)
  have b: "(\<forall>k\<in>set keywords. lower k = k) \<longrightarrow>
        calculate_relevance text keywords = case_insensitive_count text keywords"
  proof
    assume l: "\<forall>k\<in>set keywords. lower k = k"
    then have "filter (\<lambda>k. str_in (lower k) (lower text)) keywords
        = filter (\<lambda>k. str_in k (lower text)) keywords"
      by (intro filter_cong) auto
    then show "calculate_relevance text keywords = case_insensitive_count text keywords"
      by (simp add: calculate_relevance_count case_insensitive_count_def)
  qed
  from a b show ?thesis by blast
qed

theorem calculate_relevance_counts_witness:
  "list_all (\<lambda>k. lower k = k) [''mars'', ''rover'', ''moon'']
   \<and> calculate_relevance ''NASA Mars Rover'' [''mars'', ''rover'', ''moon''] = 2
   \<and> case_insensitive_count ''NASA Mars Rover'' [''mars'', ''rover'', ''moon''] = 2"
proof -
  have l: "list_all (\<lambda>k. lower k = k) [''mars'', ''rover'', ''moon'']" by code_simp
  have c: "case_insensitive_count ''NASA Mars Rover'' [''mars'', ''rover'', ''moon''] = 2"
    by code_simp
  from l have "\<forall>k\<in>set [''mars'', ''rover'', ''moon'']. lower k = k"
    by (simp only: list_all_iff)
  with calculate_relevance_counts [of "''NASA Mars Rover''" "[''mars'', ''rover'', ''moon'']"]
  have "calculate_relevance ''NASA Mars Rover'' [''mars'', ''rover'', ''moon'']
      = case_insensitive_count ''NASA Mars Rover'' [''mars'', ''rover'', ''moon'']" by blast
  with l c show ?thesis by simp
qed

theorem calculate_relevance_case_counterexample:
  "calculate_relevance ''Mars'' [''Mars''] = 0 \<and> case_insensitive_count ''Mars'' [''Mars''] = 1"
  by code_simp

section \<open>Facts about query analysis\<close>

lemma those_map_None: "those (map f xs) = None \<longleftrightarrow> (\<exists>x\<in>set xs. f x = None)"
  by (induction xs) (auto split: option.splits)

lemma those_map_Some: "those (map f xs) = Some ys \<Longrightarrow> map Some ys = map f xs"
  by (induction xs arbitrary: ys) (auto split: option.splits)

lemma intent_loop_general:
  "(\<forall>i<length tbl. set (snd (tbl ! i)) \<inter> set lem = {}) \<Longrightarrow> intent_loop tbl lem = ''general''"
proof (induction tbl)
  case Nil
  then show ?case by simp
next
  case (Cons p tbl)
  obtain c ks where p: "p = (c, ks)" by (cases p)
  from Cons.prems have h0: "set ks \<inter> set lem = {}"
    using p by fastforce
  from Cons.prems have "\<forall>i<length tbl. set (snd (tbl ! i)) \<inter> set lem = {}"
    by fastforce
  with Cons.IH have "intent_loop tbl lem = ''general''" by blast
  with h0 p show ?case by (auto simp: list_ex_iff)
qed

lemma intent_loop_first:
  "i < length tbl \<Longrightarrow> set (snd (tbl ! i)) \<inter> set lem \<noteq> {}
   \<Longrightarrow> (\<forall>j<i. set (snd (tbl ! j)) \<inter> set lem = {})
   \<Longrightarrow> intent_loop tbl lem = fst (tbl ! i)"
proof (induction tbl arbitrary: i)
  case Nil
  then show ?case by simp
next
  case (Cons p tbl)
  obtain c ks where p: "p = (c, ks)" by (cases p)
  show ?case
  proof (cases i)
    case 0
    with Cons.prems p show ?thesis by (auto simp: list_ex_iff)
  next
    case (Suc k)
    from Cons.prems(3) Suc have h0: "set ks \<inter> set lem = {}"
      using p by fastforce
    have k: "k < length tbl" using Cons.prems(1) Suc by simp
    have hit: "set (snd (tbl ! k)) \<inter> set lem \<noteq> {}" using Cons.prems(2) Suc by simp
    have before: "\<forall>j<k. set (snd (tbl ! j)) \<inter> set lem = {}"
    proof (intro allI impI)
      fix j assume "j < k"
      then have "Suc j < i" using Suc by simp
      with Cons.prems(3) have "set (snd ((p # tbl) ! Suc j)) \<inter> set lem = {}" by blast
      then show "set (snd (tbl ! j)) \<inter> set lem = {}" by simp
    qed
    from Cons.IH [OF k hit before] have "intent_loop tbl lem = fst (tbl ! k)" .
    with h0 p Suc show ?thesis by (auto simp: list_ex_iff)
  qed
qed

text \<open>
  C6. \<open>process_nlp\<close> returns unless the lemmatizer raises on one of the filtered
  tokens. When it returns, the keyword list is the lemmatized filtered tokens, the
  intent is the first category of the table, in table order, whose trigger keywords
  share an element with the keyword list, and it is \<open>general\<close> when no category
  does. Tokenizer, stop-word list and lemmatizer being fixed, the result is a function
  of the query alone, so two calls on the same query agree.
\<close>

theorem process_nlp_intent:
  "(process_nlp e query = None \<longleftrightarrow> (\<exists>w\<in>set (filtered_tokens e query). lemmatize e w = None))
   \<and> (\<forall>qi. process_nlp e query = Some qi \<longrightarrow>
         map Some (keyword_list qi) = map (lemmatize e) (filtered_tokens e query)
       \<and> (\<forall>i<length space_keywords.
             set (snd (space_keywords ! i)) \<inter> set (keyword_list qi) \<noteq> {}
             \<and> (\<forall>j<i. set (snd (space_keywords ! j)) \<inter> set (keyword_list qi) = {})
             \<longrightarrow> intent qi = fst (space_keywords ! i))
       \<and> ((\<forall>i<length space_keywords.
              set (snd (space_keywords ! i)) \<inter> set (keyword_list qi) = {})
            \<longrightarrow> intent qi = ''general''))"
proof -
  have none: "process_nlp e query = None
      \<longleftrightarrow> (\<exists>w\<in>set (filtered_tokens e query). lemmatize e w = None)"
  proof -
    have "process_nlp e query = None
        \<longleftrightarrow> those (map (lemmatize e) (filtered_tokens e query)) = None"
      by (simp add: process_nlp_def split: option.splits)
    then show ?thesis by (simp only: those_map_None)
  qed
  have some: "\<forall>qi. process_nlp e query = Some qi \<longrightarrow>
         map Some (keyword_list qi) = map (lemmatize e) (filtered_tokens e query)
       \<and> (\<forall>i<length space_keywords.
             set (snd (space_keywords ! i)) \<inter> set (keyword_list qi) \<noteq> {}
             \<and> (\<forall>j<i. set (snd (space_keywords ! j)) \<inter> set (keyword_list qi) = {})
             \<longrightarrow> intent qi = fst (space_keywords ! i))
       \<and> ((\<forall>i<length space_keywords.
              set (snd (space_keywords ! i)) \<inter> set (keyword_list qi) = {})
            \<longrightarrow> intent qi = ''general'')"
  proof (intro allI impI)
    fix qi assume a: "process_nlp e query = Some qi"
    then obtain lem where l: "those (map (lemmatize e) (filtered_tokens e query)) = Some lem"
      and kw: "keyword_list qi = lem" and it: "intent qi = intent_loop space_keywords lem"
      by (auto simp: process_nlp_def split: option.splits)
    show "map Some (keyword_list qi) = map (lemmatize e) (filtered_tokens e query)
       \<and> (\<forall>i<length space_keywords.
             set (snd (space_keywords ! i)) \<inter> set (keyword_list qi) \<noteq> {}
             \<and> (\<forall>j<i. set (snd (space_keywords ! j)) \<inter> set (keyword_list qi) = {})
             \<longrightarrow> intent qi = fst (space_keywords ! i))
       \<and> ((\<forall>i<length space_keywords.
              set (snd (space_keywords ! i)) \<inter> set (keyword_list qi) = {})
            \<longrightarrow> intent qi = ''general'')"
      using those_map_Some [OF l] kw it intent_loop_first [of _ space_keywords lem]
        intent_loop_general [of space_keywords lem]
      by simp
  qed
  from none some show ?thesis by blast
qed

theorem process_nlp_intent_witness:
  "process_nlp offline_env ''the Mars rover'' = Some rover_query
   \<and> set (snd (space_keywords ! 0)) \<inter> set (keyword_list rover_query) = {}
   \<and> set (snd (space_keywords ! 1)) \<inter> set (keyword_list rover_query) \<noteq> {}
   \<and> intent rover_query = fst (space_keywords ! 1)
   \<and> process_nlp broken_lemmatizer_env ''the Mars rover'' = None"
proof -
  have a: "process_nlp offline_env ''the Mars rover'' = Some rover_query" by code_simp
  have b: "set (snd (space_keywords ! 0)) \<inter> set (keyword_list rover_query) = {}" by code_simp
  have c: "set (snd (space_keywords ! 1)) \<inter> set (keyword_list rover_query) \<noteq> {}" by code_simp
  have l: "(1::nat) < length space_keywords" by code_simp
  have f: "filtered_tokens broken_lemmatizer_env ''the Mars rover'' = [''mars'', ''rover'']"
    by code_simp
  have g: "lemmatize broken_lemmatizer_env ''mars'' = None" by code_simp
  from b have b': "\<forall>j<1. set (snd (space_keywords ! j)) \<inter> set (keyword_list rover_query) = {}"
    by simp
  from process_nlp_intent [of offline_env "''the Mars rover''"] a l c b'
  have d: "intent rover_query = fst (space_keywords ! 1)" by blast
  from process_nlp_intent [of broken_lemmatizer_env "''the Mars rover''"] f g
  have n: "process_nlp broken_lemmatizer_env ''the Mars rover'' = None" by simp
  from a b c d n show ?thesis by blast
qed

lemma intent_loop_closed:
  "intent_loop tbl lem = ''general'' \<or> intent_loop tbl lem \<in> fst ` set tbl"
proof (induction tbl)
  case Nil
  show ?case by simp
next
  case (Cons p tbl)
  obtain c ks where p: "p = (c, ks)" by (cases p)
  show ?case
  proof (cases "list_ex (\<lambda>keyword. keyword \<in> set lem) ks")
    case True
    then show ?thesis using p by simp
  next
    case False
    with p have "intent_loop (p # tbl) lem = intent_loop tbl lem" by simp
    with Cons.IH show ?thesis by auto
  qed
qed

lemma process_nlp_intent_closed:
  assumes "process_nlp e query = Some qi"
  shows "intent qi \<in> set (''general'' # map fst space_keywords)"
proof -
  from assms obtain lem where "intent qi = intent_loop space_keywords lem"
    by (auto simp: process_nlp_def split: option.splits)
  with intent_loop_closed [of space_keywords lem] show ?thesis by auto
qed

section \<open>Facts about the fallback knowledge base\<close>

lemma get_fallback_results_nonempty: "get_fallback_results qi \<noteq> []"
  by (simp add: get_fallback_results_def Let_def)

lemma fallback_loop_eq:
  "fallback_loop qi tbl acc =
     acc @ map (\<lambda>(key, t, d, l, s). \<lparr>title = t, link = l, description = d, source = s, relevance = 3\<rparr>)
             (filter (\<lambda>(key, t, d, l, s). key_matches qi key) tbl)"
  by (induction tbl arbitrary: acc) auto

lemma intent_in_key:
  assumes "i \<in> set (''general'' # map fst space_keywords)"
    and "key \<in> set (map fst fallback_data)"
  shows "str_in i key \<longleftrightarrow> key = i"
proof -
  have "list_all (\<lambda>i. list_all (\<lambda>key. str_in i key \<longleftrightarrow> key = i) (map fst fallback_data))
          (''general'' # map fst space_keywords)"
    by code_simp
  with assms show ?thesis
    unfolding list_all_iff by blast
qed

lemma key_matches_iff:
  assumes "intent qi \<in> set (''general'' # map fst space_keywords)"
    and "key \<in> set (map fst fallback_data)"
  shows "key_matches qi key \<longleftrightarrow>
      (\<exists>p q. lower (original_query qi) = p @ key @ q) \<or> key = intent qi
      \<or> (\<exists>w\<in>set (keyword_list qi). \<exists>p q. key = p @ w @ q)"
  using intent_in_key [OF assms]
  by (simp add: key_matches_def str_in_iff list_ex_iff)

text \<open>
  C5. For a query whose intent is one of the categories of the table or \<open>general\<close>,
  as every analyzed query has, \<open>get_fallback_results\<close> returns one article of
  relevance 3 for each matching key of the table, in table order, where a key matches
  if it occurs as a substring of the lower-cased raw query, or equals the intent, or
  some keyword of the keyword list occurs as a substring of the key. If no key
  matches, it returns the single article \<open>Space Exploration\<close> of relevance 2. The
  result is never empty.
\<close>

theorem get_fallback_results_matches:
  assumes "intent qi \<in> set (''general'' # map fst space_keywords)"
  shows "get_fallback_results qi \<noteq> []
    \<and> get_fallback_results qi =
       (let hits = filter (\<lambda>(key, t, d, l, s).
                      (\<exists>p q. lower (original_query qi) = p @ key @ q) \<or> key = intent qi
                      \<or> (\<exists>w\<in>set (keyword_list qi). \<exists>p q. key = p @ w @ q)) fallback_data
        in if hits = [] then [general_article]
           else map (\<lambda>(key, t, d, l, s).
                  \<lparr>title = t, link = l, description = d, source = s, relevance = 3\<rparr>) hits)
    \<and> title general_article = ''Space Exploration'' \<and> relevance general_article = 2"
proof -
  have f: "filter (\<lambda>(key, t, d, l, s). key_matches qi key) fallback_data
      = filter (\<lambda>(key, t, d, l, s).
                      (\<exists>p q. lower (original_query qi) = p @ key @ q) \<or> key = intent qi
                      \<or> (\<exists>w\<in>set (keyword_list qi). \<exists>p q. key = p @ w @ q)) fallback_data"
  proof (rule filter_cong [OF refl])
    fix x assume x: "x \<in> set fallback_data"
    obtain key t d l s where xe: "x = (key, t, d, l, s)" by (cases x) auto
    with x have "key \<in> set (map fst fallback_data)" by force
    from key_matches_iff [OF assms this] xe
    show "(case x of (key, t, d, l, s) \<Rightarrow> key_matches qi key)
        = (case x of (key, t, d, l, s) \<Rightarrow>
                      (\<exists>p q. lower (original_query qi) = p @ key @ q) \<or> key = intent qi
                      \<or> (\<exists>w\<in>set (keyword_list qi). \<exists>p q. key = p @ w @ q))"
      by simp
  qed
  have a: "get_fallback_results qi \<noteq> []"
    by (rule get_fallback_results_nonempty)
  have b: "get_fallback_results qi =
       (let hits = filter (\<lambda>(key, t, d, l, s).
                      (\<exists>p q. lower (original_query qi) = p @ key @ q) \<or> key = intent qi
                      \<or> (\<exists>w\<in>set (keyword_list qi). \<exists>p q. key = p @ w @ q)) fallback_data
        in if hits = [] then [general_article]
           else map (\<lambda>(key, t, d, l, s).
                  \<lparr>title = t, link = l, description = d, source = s, relevance = 3\<rparr>) hits)"
    unfolding f [symmetric]
    by (simp add: get_fallback_results_def fallback_loop_eq Let_def)
  have c: "title general_article = ''Space Exploration'' \<and> relevance general_article = 2"
    by (simp add: general_article_def)
  from a b c show ?thesis by blast
qed

theorem get_fallback_results_matches_witness:
  "process_nlp offline_env ''web'' = Some web_query
   \<and> intent web_query \<in> set (''general'' # map fst space_keywords)
   \<and> get_fallback_results web_query \<noteq> []
   \<and> map relevance (get_fallback_results web_query) = [3]"
proof -
  have a: "process_nlp offline_env ''web'' = Some web_query" by code_simp
  have i: "intent web_query \<in> set (''general'' # map fst space_keywords)"
    by (rule process_nlp_intent_closed [OF a])
  have r: "map relevance (get_fallback_results web_query) = [3]" by code_simp
  from get_fallback_results_matches [OF i] a i r show ?thesis by blast
qed

theorem get_fallback_results_substring_counterexample:
  "process_nlp offline_env ''web'' = Some web_query
   \<and> filter (spec_key_matches web_query) (map fst fallback_data) = []
   \<and> map title (get_fallback_results web_query) = [''James Webb Space Telescope'']
   \<and> map relevance (get_fallback_results web_query) = [3]"
  by code_simp

section \<open>Facts about aggregation\<close>

lemma dedup_loop_extends: "\<exists>v. fst (dedup_loop rs (u, s)) = u @ v"
proof (induction rs arbitrary: u s)
  case Nil
  then show ?case by simp
next
  case (Cons r rs)
  show ?case
  proof (cases "title r \<in> s")
    case True
    with Cons.IH [of u s] show ?thesis by simp
  next
    case False
    from Cons.IH [of "u @ [r]" "insert (title r) s"]
    obtain v where "fst (dedup_loop rs (u @ [r], insert (title r) s)) = u @ r # v" by auto
    with False show ?thesis by simp
  qed
qed

lemma dedup_loop_distinct:
  "distinct (map title u) \<Longrightarrow> title ` set u \<subseteq> s
   \<Longrightarrow> distinct (map title (fst (dedup_loop rs (u, s))))"
proof (induction rs arbitrary: u s)
  case Nil
  then show ?case by simp
next
  case (Cons r rs)
  show ?case
  proof (cases "title r \<in> s")
    case True
    with Cons.IH [of u s] Cons.prems show ?thesis by simp
  next
    case False
    with Cons.prems have d: "distinct (map title (u @ [r]))" by auto
    from Cons.prems have i: "title ` set (u @ [r]) \<subseteq> insert (title r) s" by auto
    from Cons.IH [OF d i] False show ?thesis by simp
  qed
qed

lemma dedup_loop_sorted:
  "sorted_wrt P (u @ rs) \<Longrightarrow> sorted_wrt P (fst (dedup_loop rs (u, s)))"
proof (induction rs arbitrary: u s)
  case Nil
  then show ?case by simp
next
  case (Cons r rs)
  show ?case
  proof (cases "title r \<in> s")
    case True
    from Cons.prems have "sorted_wrt P (u @ rs)"
      by (auto simp: sorted_wrt_append)
    with Cons.IH True show ?thesis by simp
  next
    case False
    from Cons.prems have "sorted_wrt P ((u @ [r]) @ rs)" by simp
    with Cons.IH False show ?thesis by simp
  qed
qed

lemma dedup_loop_titles:
  "title ` set (fst (dedup_loop rs (u, s))) \<union> s = title ` set u \<union> title ` set rs \<union> s"
proof (induction rs arbitrary: u s)
  case Nil
  then show ?case by simp
next
  case (Cons r rs)
  show ?case
  proof (cases "title r \<in> s")
    case True
    with Cons.IH [of u s] show ?thesis by auto
  next
    case False
    define D where "D = title ` set (fst (dedup_loop rs (u @ [r], insert (title r) s)))"
    obtain v where v: "fst (dedup_loop rs (u @ [r], insert (title r) s)) = (u @ [r]) @ v"
      using dedup_loop_extends by blast
    then have tin: "title r \<in> D"
      by (simp add: D_def)
    have ih: "D \<union> insert (title r) s
        = title ` set u \<union> {title r} \<union> title ` set rs \<union> insert (title r) s"
      using Cons.IH [of "u @ [r]" "insert (title r) s"] by (simp add: D_def Un_commute)
    have "D \<union> s = D \<union> insert (title r) s"
      using tin by auto
    also have "\<dots> = title ` set u \<union> {title r} \<union> title ` set rs \<union> insert (title r) s"
      by (rule ih)
    also have "\<dots> = title ` set u \<union> insert (title r) (title ` set rs) \<union> s"
      by auto
    finally have "D \<union> s = title ` set u \<union> insert (title r) (title ` set rs) \<union> s" .
    with False show ?thesis by (simp add: D_def)
  qed
qed

lemma dedup_loop_first:
  "x \<in> set (fst (dedup_loop rs (u, s))) \<Longrightarrow>
     x \<in> set u \<or> (\<exists>pre post. rs = pre @ x # post \<and> title x \<notin> title ` set pre \<and> title x \<notin> s)"
proof (induction rs arbitrary: u s)
  case Nil
  then show ?case by simp
next
  case (Cons r rs)
  show ?case
  proof (cases "title r \<in> s")
    case True
    with Cons.prems have "x \<in> set (fst (dedup_loop rs (u, s)))" by simp
    from Cons.IH [OF this] show ?thesis
    proof
      assume "x \<in> set u" then show ?thesis by simp
    next
      assume "\<exists>pre post. rs = pre @ x # post \<and> title x \<notin> title ` set pre \<and> title x \<notin> s"
      then obtain pre post where p: "rs = pre @ x # post" "title x \<notin> title ` set pre" "title x \<notin> s"
        by blast
      with True have "r # rs = (r # pre) @ x # post \<and> title x \<notin> title ` set (r # pre) \<and> title x \<notin> s"
        by auto
      then show ?thesis by blast
    qed
  next
    case False
    with Cons.prems have "x \<in> set (fst (dedup_loop rs (u @ [r], insert (title r) s)))" by simp
    from Cons.IH [OF this] show ?thesis
    proof
      assume "x \<in> set (u @ [r])"
      then have "x \<in> set u \<or> x = r" by auto
      then show ?thesis
      proof
        assume "x \<in> set u" then show ?thesis by simp
      next
        assume "x = r"
        with False have "r # rs = [] @ x # rs \<and> title x \<notin> title ` set [] \<and> title x \<notin> s" by simp
        then show ?thesis by blast
      qed
    next
      assume "\<exists>pre post. rs = pre @ x # post \<and> title x \<notin> title ` set pre
                \<and> title x \<notin> insert (title r) s"
      then obtain pre post where p: "rs = pre @ x # post" "title x \<notin> title ` set pre"
          "title x \<notin> insert (title r) s"
        by blast
      then have "r # rs = (r # pre) @ x # post \<and> title x \<notin> title ` set (r # pre) \<and> title x \<notin> s"
        by auto
      then show ?thesis by blast
    qed
  qed
qed

lemma find_first_occurrence:
  "\<forall>y\<in>set pre. \<not> P y \<Longrightarrow> P x \<Longrightarrow> find P (pre @ x # post) = Some x"
  by (induction pre) auto

lemma sorted_by_relevance_sorted:
  "sorted_wrt (\<lambda>a b. relevance b \<le> relevance a) (sorted_by_relevance xs)"
proof -
  have "sorted (map (\<lambda>x. - relevance x) (sort_key (\<lambda>x. - relevance x) xs))"
    by (rule sorted_sort_key)
  then show ?thesis
    by (simp add: sorted_by_relevance_def sorted_map)
qed

lemma set_sorted_by_relevance: "set (sorted_by_relevance xs) = set xs"
  by (simp add: sorted_by_relevance_def)

lemma sorted_by_relevance_Nil: "sorted_by_relevance xs = [] \<longleftrightarrow> xs = []"
proof -
  have "length (sorted_by_relevance xs) = length xs"
    by (simp add: sorted_by_relevance_def)
  then show ?thesis by (metis length_0_conv)
qed

lemma use_fallback_nonempty: "all_results (use_fallback qi st) \<noteq> []"
  by (simp add: use_fallback_def Let_def get_fallback_results_nonempty)

lemma gather_nonempty: "all_results (gather e qi) \<noteq> []"
  by (simp add: gather_def Let_def use_fallback_nonempty)

lemma unique_results_nonempty: "unique_results e qi \<noteq> []"
proof -
  obtain r rs where s: "sorted_by_relevance (all_results (gather e qi)) = r # rs"
    using gather_nonempty [of e qi] sorted_by_relevance_Nil [of "all_results (gather e qi)"]
    by (cases "sorted_by_relevance (all_results (gather e qi))") auto
  obtain v where "fst (dedup_loop rs ([r], {title r})) = [r] @ v"
    using dedup_loop_extends by blast
  with s show ?thesis by (simp add: unique_results_def)
qed

lemma unique_results_distinct: "distinct (map title (unique_results e qi))"
  by (simp add: unique_results_def dedup_loop_distinct)

lemma unique_results_sorted:
  "sorted_wrt (\<lambda>a b. relevance b \<le> relevance a) (unique_results e qi)"
  by (simp add: unique_results_def dedup_loop_sorted sorted_by_relevance_sorted)

lemma unique_results_titles:
  "title ` set (unique_results e qi) = title ` set (all_results (gather e qi))"
  using dedup_loop_titles [of "sorted_by_relevance (all_results (gather e qi))" "[]" "{}"]
  by (simp add: unique_results_def set_sorted_by_relevance)

lemma unique_results_first:
  assumes "r \<in> set (unique_results e qi)"
  shows "\<exists>pre post. sorted_by_relevance (all_results (gather e qi)) = pre @ r # post
           \<and> title r \<notin> title ` set pre"
  using dedup_loop_first [of r "sorted_by_relevance (all_results (gather e qi))" "[]" "{}"] assms
  by (auto simp: unique_results_def)

lemma unique_results_best:
  assumes r: "r \<in> set (unique_results e qi)"
  shows "find (\<lambda>a. title a = title r) (sorted_by_relevance (all_results (gather e qi))) = Some r
         \<and> r \<in> set (all_results (gather e qi))
         \<and> (\<forall>a\<in>set (all_results (gather e qi)). title a = title r \<longrightarrow> relevance a \<le> relevance r)"
proof -
  obtain pre post where s: "sorted_by_relevance (all_results (gather e qi)) = pre @ r # post"
    and pre: "title r \<notin> title ` set pre"
    using unique_results_first [OF r] by blast
  have f: "find (\<lambda>a. title a = title r) (sorted_by_relevance (all_results (gather e qi))) = Some r"
  proof -
    have "\<forall>y\<in>set pre. \<not> title y = title r"
      using pre by (metis imageI)
    then show ?thesis
      unfolding s by (intro find_first_occurrence) simp_all
  qed
  have m: "r \<in> set (all_results (gather e qi))"
    using s set_sorted_by_relevance [of "all_results (gather e qi)"] by auto
  have srt: "sorted_wrt (\<lambda>a b. relevance b \<le> relevance a) (pre @ r # post)"
    using sorted_by_relevance_sorted [of "all_results (gather e qi)"] s by simp
  have b: "\<forall>a\<in>set (all_results (gather e qi)). title a = title r \<longrightarrow> relevance a \<le> relevance r"
  proof (intro ballI impI)
    fix a assume a: "a \<in> set (all_results (gather e qi))" and t: "title a = title r"
    from a have "a \<in> set (pre @ r # post)"
      using s set_sorted_by_relevance [of "all_results (gather e qi)"] by auto
    moreover have "a \<notin> set pre" using t pre by (metis imageI)
    ultimately have "a = r \<or> a \<in> set post" by auto
    with srt show "relevance a \<le> relevance r"
      by (auto simp: sorted_wrt_append)
  qed
  from f m b show ?thesis by blast
qed

lemma get_space_info_Some:
  "process_nlp e query = Some qi \<Longrightarrow>
     get_space_info e query =
       \<lparr>query_info = qi, results = take 10 (unique_results e qi),
        total_found = int (length (unique_results e qi)),
        sources_info = Some (make_sources_info (source_results (gather e qi)))\<rparr>"
  by (simp add: get_space_info_def get_space_info_effects_def Let_def)

lemma get_space_info_None:
  "process_nlp e query = None \<Longrightarrow> get_space_info e query = error_response query"
  by (simp add: get_space_info_def get_space_info_effects_def)

text \<open>
  C1. Whatever the query and whatever the sites and the toolkit do, the response of
  \<open>get_space_info\<close> has at most 10 results and at least one, no two results have
  the same title, and \<open>total_found\<close> is at least the number of results.
\<close>

theorem get_space_info_invariants:
  "length (results (get_space_info e query)) \<le> 10
   \<and> results (get_space_info e query) \<noteq> []
   \<and> distinct (map title (results (get_space_info e query)))
   \<and> int (length (results (get_space_info e query))) \<le> total_found (get_space_info e query)"
proof (cases "process_nlp e query")
  case None
  then show ?thesis
    by (simp add: get_space_info_None error_response_def)
next
  case (Some qi)
  have d: "distinct (map title (take 10 (unique_results e qi)))"
    using unique_results_distinct [of e qi] by (simp add: take_map [symmetric] distinct_take)
  from Some d unique_results_nonempty [of e qi] show ?thesis
    by (simp add: get_space_info_Some)
qed

text \<open>
  C2. The results of \<open>get_space_info\<close> are in non-increasing order of relevance.
  When the query analysis succeeds, the results are the first 10 of the deduplicated
  list, the deduplicated list has exactly the titles of the gathered articles, each
  once, and the article it keeps for a title is the first one with that title in the
  gathered list sorted by descending relevance, so no gathered article with the same
  title has a higher relevance.
\<close>

theorem results_ranked_best_duplicate:
  "sorted_wrt (\<lambda>a b. relevance b \<le> relevance a) (results (get_space_info e query))
   \<and> (\<forall>qi. process_nlp e query = Some qi \<longrightarrow>
         results (get_space_info e query) = take 10 (unique_results e qi)
       \<and> title ` set (unique_results e qi) = title ` set (all_results (gather e qi))
       \<and> distinct (map title (unique_results e qi))
       \<and> (\<forall>r\<in>set (unique_results e qi).
            find (\<lambda>a. title a = title r) (sorted_by_relevance (all_results (gather e qi))) = Some r
          \<and> r \<in> set (all_results (gather e qi))
          \<and> (\<forall>a\<in>set (all_results (gather e qi)).
                title a = title r \<longrightarrow> relevance a \<le> relevance r)))"
proof -
  have ranked: "sorted_wrt (\<lambda>a b. relevance b \<le> relevance a) (results (get_space_info e query))"
  proof (cases "process_nlp e query")
    case None
    then show ?thesis by (simp add: get_space_info_None error_response_def)
  next
    case (Some qi)
    then show ?thesis
      using unique_results_sorted [of e qi]
      by (simp add: get_space_info_Some sorted_wrt_take)
  qed
  have best: "\<forall>qi. process_nlp e query = Some qi \<longrightarrow>
         results (get_space_info e query) = take 10 (unique_results e qi)
       \<and> title ` set (unique_results e qi) = title ` set (all_results (gather e qi))
       \<and> distinct (map title (unique_results e qi))
       \<and> (\<forall>r\<in>set (unique_results e qi).
            find (\<lambda>a. title a = title r) (sorted_by_relevance (all_results (gather e qi))) = Some r
          \<and> r \<in> set (all_results (gather e qi))
          \<and> (\<forall>a\<in>set (all_results (gather e qi)).
                title a = title r \<longrightarrow> relevance a \<le> relevance r))"
    using unique_results_best [of _ e] unique_results_titles [of e] unique_results_distinct [of e]
    by (simp add: get_space_info_Some)
  from ranked best show ?thesis by blast
qed

theorem results_ranked_best_duplicate_witness:
  "process_nlp two_sites_env ''webb'' = Some webb_query
   \<and> page ''James Webb Space Telescope'' ''Google'' 7 \<in> set (unique_results two_sites_env webb_query)
   \<and> page ''James Webb Space Telescope'' ''Wikipedia'' 4 \<in> set (all_results (gather two_sites_env webb_query))
   \<and> relevance (page ''James Webb Space Telescope'' ''Wikipedia'' 4)
        \<le> relevance (page ''James Webb Space Telescope'' ''Google'' 7)"
proof -
  have a: "process_nlp two_sites_env ''webb'' = Some webb_query" by code_simp
  have b: "page ''James Webb Space Telescope'' ''Google'' 7
             \<in> set (unique_results two_sites_env webb_query)" by code_simp
  have c: "page ''James Webb Space Telescope'' ''Wikipedia'' 4
             \<in> set (all_results (gather two_sites_env webb_query))" by code_simp
  have t: "title (page ''James Webb Space Telescope'' ''Wikipedia'' 4)
             = title (page ''James Webb Space Telescope'' ''Google'' 7)" by (simp add: page_def)
  from results_ranked_best_duplicate [of two_sites_env "''webb''"] a b c t
  have "relevance (page ''James Webb Space Telescope'' ''Wikipedia'' 4)
        \<le> relevance (page ''James Webb Space Telescope'' ''Google'' 7)" by blast
  with a b c show ?thesis by blast
qed

text \<open>
  C3. \<open>get_space_info\<close> returns a response on every query. When the query analysis
  raises, the response holds exactly the one article \<open>system_article\<close>, whose source
  is \<open>System\<close>, with \<open>total_found = 1\<close>, and its keys are \<open>query_info\<close>,
  \<open>results\<close> and \<open>total_found\<close>, without \<open>sources_info\<close>. When the analysis
  returns, the keys of the response are \<open>query_info\<close>, \<open>results\<close>,
  \<open>total_found\<close> and \<open>sources_info\<close>.
\<close>

theorem get_space_info_response_shape:
  "(process_nlp e query = None \<longrightarrow>
       results (get_space_info e query) = [system_article]
     \<and> total_found (get_space_info e query) = 1
     \<and> response_keys (get_space_info e query) = [''query_info'', ''results'', ''total_found''])
   \<and> (process_nlp e query \<noteq> None \<longrightarrow>
       response_keys (get_space_info e query)
         = [''query_info'', ''results'', ''total_found'', ''sources_info''])
   \<and> source system_article = ''System''"
proof -
  have a: "process_nlp e query = None \<longrightarrow>
       results (get_space_info e query) = [system_article]
     \<and> total_found (get_space_info e query) = 1
     \<and> response_keys (get_space_info e query) = [''query_info'', ''results'', ''total_found'']"
    by (simp add: get_space_info_None error_response_def response_keys_def)
  have b: "process_nlp e query \<noteq> None \<longrightarrow>
       response_keys (get_space_info e query)
         = [''query_info'', ''results'', ''total_found'', ''sources_info'']"
    by (auto simp: get_space_info_Some response_keys_def)
  have c: "source system_article = ''System''"
    by (simp add: system_article_def)
  from a b c show ?thesis by blast
qed

theorem get_space_info_response_shape_witness:
  "process_nlp broken_lemmatizer_env ''the Mars rover'' = None
   \<and> results (get_space_info broken_lemmatizer_env ''the Mars rover'') = [system_article]
   \<and> total_found (get_space_info broken_lemmatizer_env ''the Mars rover'') = 1
   \<and> process_nlp offline_env ''the Mars rover'' = Some rover_query
   \<and> response_keys (get_space_info offline_env ''the Mars rover'')
         = [''query_info'', ''results'', ''total_found'', ''sources_info'']"
proof -
  have n: "process_nlp broken_lemmatizer_env ''the Mars rover'' = None" by code_simp
  have s: "process_nlp offline_env ''the Mars rover'' = Some rover_query" by code_simp
  from get_space_info_response_shape [of broken_lemmatizer_env "''the Mars rover''"] n
  have a: "results (get_space_info broken_lemmatizer_env ''the Mars rover'') = [system_article]
     \<and> total_found (get_space_info broken_lemmatizer_env ''the Mars rover'') = 1" by blast
  from get_space_info_response_shape [of offline_env "''the Mars rover''"] s
  have b: "response_keys (get_space_info offline_env ''the Mars rover'')
         = [''query_info'', ''results'', ''total_found'', ''sources_info'']" by simp
  from n s a b show ?thesis by blast
qed

theorem degraded_response_keys_counterexample:
  "response_keys (get_space_info broken_lemmatizer_env ''the Mars rover'')
     = [''query_info'', ''results'', ''total_found'']"
  by code_simp

lemma calls_run_scrapers:
  "calls (run_scrapers ss qi st) = calls st @ map name (filter condition ss)"
  by (induction ss arbitrary: st) (auto split: option.splits)

lemma calls_use_fallback: "calls (use_fallback qi st) = calls st"
  by (simp add: use_fallback_def Let_def)

lemma calls_gather: "calls (gather e qi) = map name (filter condition (scrapers e qi []))"
  by (simp add: gather_def Let_def calls_use_fallback calls_run_scrapers)

text \<open>
  C9. In the list of scrapers, the conditions of \<open>NASA Homepage\<close> and
  \<open>Universe Today\<close> are computed from the empty accumulator, before any scraper has
  run, so both hold; the scrapers called by \<open>get_space_info\<close> are those of the list
  whose condition holds, and both are among them for every query that is analyzed,
  however many articles the earlier scrapers return.
\<close>

theorem fallback_scrapers_always_called:
  "name (scrapers e qi [] ! 8) = ''NASA Homepage'' \<and> condition (scrapers e qi [] ! 8)
   \<and> name (scrapers e qi [] ! 9) = ''Universe Today'' \<and> condition (scrapers e qi [] ! 9)
   \<and> (process_nlp e query = Some qi \<longrightarrow>
         snd (get_space_info_effects e query) = map name (filter condition (scrapers e qi []))
       \<and> ''NASA Homepage'' \<in> set (snd (get_space_info_effects e query))
       \<and> ''Universe Today'' \<in> set (snd (get_space_info_effects e query)))"
proof -
  have a: "name (scrapers e qi [] ! 8) = ''NASA Homepage'' \<and> condition (scrapers e qi [] ! 8)
   \<and> name (scrapers e qi [] ! 9) = ''Universe Today'' \<and> condition (scrapers e qi [] ! 9)"
    by (simp add: scrapers_def)
  have b: "process_nlp e query = Some qi \<longrightarrow>
         snd (get_space_info_effects e query) = map name (filter condition (scrapers e qi []))
       \<and> ''NASA Homepage'' \<in> set (snd (get_space_info_effects e query))
       \<and> ''Universe Today'' \<in> set (snd (get_space_info_effects e query))"
  proof
    assume s: "process_nlp e query = Some qi"
    then have c: "snd (get_space_info_effects e query) = calls (gather e qi)"
      by (simp add: get_space_info_effects_def Let_def)
    have "''NASA Homepage'' \<in> set (map name (filter condition (scrapers e qi [])))"
      by (simp add: scrapers_def)
    moreover have "''Universe Today'' \<in> set (map name (filter condition (scrapers e qi [])))"
      by (simp add: scrapers_def)
    ultimately show "snd (get_space_info_effects e query) = map name (filter condition (scrapers e qi []))
       \<and> ''NASA Homepage'' \<in> set (snd (get_space_info_effects e query))
       \<and> ''Universe Today'' \<in> set (snd (get_space_info_effects e query))"
      using c calls_gather [of e qi] by simp
  qed
  from a b show ?thesis by blast
qed

theorem fallback_scrapers_always_called_witness:
  "process_nlp two_sites_env ''webb'' = Some webb_query
   \<and> scrape_wikipedia two_sites_env webb_query = Some wikipedia_pages
   \<and> length wikipedia_pages = 5
   \<and> ''NASA Homepage'' \<in> set (snd (get_space_info_effects two_sites_env ''webb''))
   \<and> ''Universe Today'' \<in> set (snd (get_space_info_effects two_sites_env ''webb''))"
proof -
  have a: "process_nlp two_sites_env ''webb'' = Some webb_query" by code_simp
  have b: "scrape_wikipedia two_sites_env webb_query = Some wikipedia_pages" 
    by (simp add: two_sites_env_def)
  have c: "length wikipedia_pages = 5" by (simp add: wikipedia_pages_def)
  from fallback_scrapers_always_called [of two_sites_env webb_query "''webb''"] a b c
  show ?thesis by blast
qed

section \<open>Facts about the search route\<close>

lemma runs_no_match: "list_all (\<lambda>c. \<not> P c) s \<Longrightarrow> runs P s [] = []"
  by (induction s) auto

lemma whitespace_not_word:
  assumes "is_space c"
  shows "\<not> is_word_char (lower_char (lower_char c))"
proof -
  have "list_all (\<lambda>c. \<not> is_word_char (lower_char (lower_char c))) whitespace"
    by code_simp
  with assms show ?thesis
    unfolding list_all_iff is_space_def by blast
qed

lemma findall_w_blank:
  assumes "list_all is_space query"
  shows "findall_w (lower (lower query)) = []"
proof -
  from assms have "list_all (\<lambda>c. \<not> is_word_char c) (lower (lower query))"
    by (auto simp: list_all_iff lower_def whitespace_not_word)
  then show ?thesis
    unfolding findall_w_def by (rule runs_no_match)
qed

lemma process_nlp_blank:
  assumes "list_all is_space query"
    and "word_tokenize e (lower query) = None \<or> word_tokenize e (lower query) = Some []"
  shows "process_nlp e query =
           Some \<lparr>processed_query = [], original_query = query,
                 intent = ''general'', keyword_list = []\<rparr>"
proof -
  from assms(2) have "simple_tokenize e (lower query) = []"
    using findall_w_blank [OF assms(1)] by (auto simp: simple_tokenize_def)
  then have "filtered_tokens e query = []"
    by (simp add: filtered_tokens_def)
  then show ?thesis
    by (simp add: process_nlp_def intent_loop_general)
qed

lemma calls_get_space_info:
  "process_nlp e query = Some qi \<Longrightarrow>
     snd (get_space_info_effects e query) = map name (filter condition (scrapers e qi []))"
  by (simp add: get_space_info_effects_def Let_def calls_gather)

lemma calls_general:
  "intent qi = ''general'' \<Longrightarrow>
     map name (filter condition (scrapers e qi []))
       = [''Wikipedia'', ''Google'', ''NASA'', ''Space.com'', ''NASA Homepage'', ''Universe Today'']"
  by (simp add: scrapers_def)

lemma calls_six:
  "set [''Wikipedia'', ''Google'', ''NASA'', ''Space.com'', ''NASA Homepage'', ''Universe Today'']
     \<subseteq> set (map name (filter condition (scrapers e qi [])))"
  by (simp add: scrapers_def)

text \<open>
  C4. The route \<open>search\<close> answers a query that is empty or consists of whitespace
  only with the error \<open>Please provide a query\<close> and status 400, and no scraper is
  called. The check is made by the route; \<open>get_space_info\<close> itself makes none:
  whenever its analysis of such a query returns, it calls the scrapers of its list
  whose condition holds, among them \<open>Wikipedia\<close>, \<open>Google\<close>, \<open>NASA\<close>,
  \<open>Space.com\<close>, \<open>NASA Homepage\<close> and \<open>Universe Today\<close>, and it calls exactly
  these six when the toolkit's tokenizer raises or yields no token.
\<close>

theorem search_rejects_blank:
  assumes "list_all is_space query"
  shows "search e query = (Json_error ''Please provide a query'' 400, [])
    \<and> (\<forall>qi. process_nlp e query = Some qi \<longrightarrow>
          snd (get_space_info_effects e query) = map name (filter condition (scrapers e qi []))
        \<and> set [''Wikipedia'', ''Google'', ''NASA'', ''Space.com'', ''NASA Homepage'',
                ''Universe Today'']
            \<subseteq> set (snd (get_space_info_effects e query)))
    \<and> (word_tokenize e (lower query) = None \<or> word_tokenize e (lower query) = Some [] \<longrightarrow>
          snd (get_space_info_effects e query)
            = [''Wikipedia'', ''Google'', ''NASA'', ''Space.com'', ''NASA Homepage'',
               ''Universe Today''])"
proof -
  have a: "search e query = (Json_error ''Please provide a query'' 400, [])"
    using assms by (simp add: search_def strip_Nil_iff)
  have b: "\<forall>qi. process_nlp e query = Some qi \<longrightarrow>
          snd (get_space_info_effects e query) = map name (filter condition (scrapers e qi []))
        \<and> set [''Wikipedia'', ''Google'', ''NASA'', ''Space.com'', ''NASA Homepage'',
                ''Universe Today'']
            \<subseteq> set (snd (get_space_info_effects e query))"
  proof (intro allI impI)
    fix qi assume s: "process_nlp e query = Some qi"
    from calls_get_space_info [OF s] calls_six [of e qi]
    show "snd (get_space_info_effects e query) = map name (filter condition (scrapers e qi []))
        \<and> set [''Wikipedia'', ''Google'', ''NASA'', ''Space.com'', ''NASA Homepage'',
                ''Universe Today'']
            \<subseteq> set (snd (get_space_info_effects e query))"
      by simp
  qed
  have c: "word_tokenize e (lower query) = None \<or> word_tokenize e (lower query) = Some [] \<longrightarrow>
          snd (get_space_info_effects e query)
            = [''Wikipedia'', ''Google'', ''NASA'', ''Space.com'', ''NASA Homepage'',
               ''Universe Today'']"
  proof
    assume t: "word_tokenize e (lower query) = None \<or> word_tokenize e (lower query) = Some []"
    define qi where "qi = \<lparr>processed_query = [], original_query = query,
                 intent = ''general'', keyword_list = []\<rparr>"
    have s: "process_nlp e query = Some qi"
      unfolding qi_def by (rule process_nlp_blank [OF assms t])
    have g: "intent qi = ''general''" by (simp add: qi_def)
    from calls_get_space_info [OF s] calls_general [OF g, of e]
    show "snd (get_space_info_effects e query)
            = [''Wikipedia'', ''Google'', ''NASA'', ''Space.com'', ''NASA Homepage'',
               ''Universe Today'']"
      by simp
  qed
  from a b c show ?thesis by blast
qed

theorem search_rejects_blank_witness:
  "list_all is_space [CHR '' '', CHR 0x09, CHR 0xA0, CHR 0x85]
   \<and> word_tokenize two_sites_env (lower [CHR '' '', CHR 0x09, CHR 0xA0, CHR 0x85]) = None
   \<and> process_nlp two_sites_env [CHR '' '', CHR 0x09, CHR 0xA0, CHR 0x85]
       = Some \<lparr>processed_query = [], original_query = [CHR '' '', CHR 0x09, CHR 0xA0, CHR 0x85],
               intent = ''general'', keyword_list = []\<rparr>
   \<and> search two_sites_env [CHR '' '', CHR 0x09, CHR 0xA0, CHR 0x85]
       = (Json_error ''Please provide a query'' 400, [])
   \<and> snd (get_space_info_effects two_sites_env [CHR '' '', CHR 0x09, CHR 0xA0, CHR 0x85])
       = [''Wikipedia'', ''Google'', ''NASA'', ''Space.com'', ''NASA Homepage'', ''Universe Today'']"
proof -
  have b: "list_all is_space [CHR '' '', CHR 0x09, CHR 0xA0, CHR 0x85]" by code_simp
  have t: "word_tokenize two_sites_env (lower [CHR '' '', CHR 0x09, CHR 0xA0, CHR 0x85]) = None"
    by code_simp
  have p: "process_nlp two_sites_env [CHR '' '', CHR 0x09, CHR 0xA0, CHR 0x85]
       = Some \<lparr>processed_query = [], original_query = [CHR '' '', CHR 0x09, CHR 0xA0, CHR 0x85],
               intent = ''general'', keyword_list = []\<rparr>"
    by code_simp
  from search_rejects_blank [OF b, of two_sites_env] b t p show ?thesis by blast
qed

theorem get_space_info_blank_counterexample:
  "strip '' '' = []
   \<and> snd (get_space_info_effects offline_env '' '')
       = [''Wikipedia'', ''Google'', ''NASA'', ''Space.com'', ''NASA Homepage'', ''Universe Today'']
   \<and> snd (get_space_info_effects offline_env '''')
       = [''Wikipedia'', ''Google'', ''NASA'', ''Space.com'', ''NASA Homepage'', ''Universe Today'']"
  by code_simp

end
